theory Spec2Isabelle
  imports Complex_Main "HOL-Library.Word"
begin

section \<open>The firmware water_level.ino\<close>

text \<open>
  The sketch keeps its configuration and its pump state in global variables and talks to
  the hardware through the Arduino calls \<open>millis\<close>, \<open>pulseIn\<close>, \<open>digitalRead\<close> and
  \<open>digitalWrite\<close>, and to the dashboard through \<open>ws.textAll\<close>. The model threads one
  record through every function: the globals, the values the hardware will return to
  each successive read, and a log of what was written out.

  Conventions of the model.
  \<^item> \<open>unsigned long\<close> is a 32-bit word: \<open>millis() - pumpStartTs\<close> wraps as in C.
  \<^item> \<open>int\<close> is a HOL integer holding a 32-bit value. C++ leaves a signed sum that
    leaves the range undefined: the integer the platform delivers in that case is the
    field \<open>add_ub\<close> of the record, and nothing is assumed about it.
  \<^item> \<open>float\<close> is IEEE binary32 and \<open>double\<close> is binary64: every operation rounds
    its exact result to the nearest value with 24 or 53 significant bits, ties to even.
    The exponent is not bounded: infinities, NaN and the reduced precision of subnormal
    numbers are not part of the type. The result of a division by zero is \<open>None\<close>,
    and so is a reported volume that exceeds the largest float, the one float result of
    the sketch that can do so while the globals hold floats.
  \<^item> C++ leaves the conversion of such a result, or of a float outside the range of
    \<open>int\<close>, to \<open>int\<close> undefined. The integer the platform delivers in that case is
    the field \<open>cast_ub\<close> of the record: nothing is assumed about it.
\<close>

subsection \<open>Binary floating point\<close>

text \<open>The number of binary digits of a natural number.\<close>

fun bits :: "nat \<Rightarrow> nat" where
  "bits n = (if n = 0 then 0 else Suc (bits (n div 2)))"

declare bits.simps [simp del]

text \<open>The binary exponent \<open>e\<close> of a real number other than 0: \<open>2\<^sup>e \<le> |x| < 2\<^sup>e\<^sup>+\<^sup>1\<close>.\<close>

definition expo :: "real \<Rightarrow> int" where
  "expo x = (if 1 \<le> \<bar>x\<bar> then int (bits (nat \<lfloor>\<bar>x\<bar>\<rfloor>)) - 1
             else - int (bits (nat (\<lceil>1 / \<bar>x\<bar>\<rceil> - 1))))"

text \<open>The nearest integer, ties to the even one.\<close>

definition round_even :: "real \<Rightarrow> int" where
  "round_even t =
     (let f = \<lfloor>t\<rfloor>; r = t - of_int f
      in if r < 1 / 2 then f else if 1 / 2 < r then f + 1 else if even f then f else f + 1)"

text \<open>Rounding to \<open>p\<close> significant bits.\<close>

definition rnd :: "nat \<Rightarrow> real \<Rightarrow> real" where
  "rnd p x =
     (let u = 2 powi (expo x - int p + 1)
      in sgn x * (u * of_int (round_even (\<bar>x\<bar> / u))))"

text \<open>A real number that has an integer significand of fewer than \<open>p\<close> + 1 bits.\<close>

definition representable :: "nat \<Rightarrow> real \<Rightarrow> bool" where
  "representable p y = (\<exists>m k. y = of_int m * 2 powi k \<and> \<bar>m\<bar> < 2 ^ p)"

text \<open>
  The values of type \<open>float\<close>. \<open>flt x\<close> is the float nearest to \<open>x\<close> and \<open>fval\<close>
  the real number a float stands for. A \<open>double\<close> appears only inside expressions and
  is the real number \<open>dbl x\<close>.
\<close>

typedef f32 = "range (rnd 24)"
  morphisms fval Abs_f32
  by blast

definition flt :: "real \<Rightarrow> f32" where
  "flt x = Abs_f32 (rnd 24 x)"

definition dbl :: "real \<Rightarrow> real" where
  "dbl x = rnd 53 x"

definition FLT_MAX :: real where
  "FLT_MAX = 340282346638528859811704183484516925440"

text \<open>A float result that exceeds \<open>FLT_MAX\<close> is an infinity in binary32.\<close>

definition finite32 :: "f32 \<Rightarrow> f32 option" where
  "finite32 x = (if \<bar>fval x\<bar> \<le> FLT_MAX then Some x else None)"

definition fadd :: "f32 \<Rightarrow> f32 \<Rightarrow> f32" where
  "fadd a b = flt (fval a + fval b)"

definition fsub :: "f32 \<Rightarrow> f32 \<Rightarrow> f32" where
  "fsub a b = flt (fval a - fval b)"

definition ftimes :: "f32 \<Rightarrow> f32 \<Rightarrow> f32" where
  "ftimes a b = flt (fval a * fval b)"

text \<open>Float division: no finite value when the divisor is zero.\<close>

definition fdiv :: "f32 \<Rightarrow> f32 \<Rightarrow> f32 option" where
  "fdiv a b = (if fval b = 0 then None else Some (flt (fval a / fval b)))"

definition fmul :: "f32 option \<Rightarrow> f32 \<Rightarrow> f32 option" where
  "fmul v c = (case v of None \<Rightarrow> None | Some x \<Rightarrow> Some (ftimes x c))"

text \<open>\<open>max\<close> on floats, as \<open>std::max\<close> computes it.\<close>

definition fmax :: "f32 \<Rightarrow> f32 \<Rightarrow> f32" where
  "fmax a b = (if fval a < fval b then b else a)"

text \<open>\<open>round\<close> of the C library: to the nearest integer, halves away from zero.\<close>

definition cround :: "real \<Rightarrow> real" where
  "cround x = (if 0 \<le> x then of_int \<lfloor>x + 1 / 2\<rfloor> else of_int \<lceil>x - 1 / 2\<rceil>)"

definition fround :: "f32 \<Rightarrow> f32" where
  "fround a = flt (cround (fval a))"

text \<open>Rounding towards zero.\<close>

definition trunc :: "real \<Rightarrow> int" where
  "trunc x = (if 0 \<le> x then \<lfloor>x\<rfloor> else \<lceil>x\<rceil>)"

text \<open>
  The cast \<open>(int)x\<close> of a float: the truncation where that fits an \<open>int\<close>, and
  otherwise whatever the platform delivers (\<open>ub\<close>).
\<close>

definition float_to_int :: "(real option \<Rightarrow> int) \<Rightarrow> f32 option \<Rightarrow> int" where
  "float_to_int ub v =
     (case v of
        None \<Rightarrow> ub None
      | Some x \<Rightarrow> if - 2147483649 < fval x \<and> fval x < 2147483648 then trunc (fval x)
                  else ub (Some (fval x)))"

subsection \<open>Integers and constants\<close>

definition INT_MIN :: int where
  "INT_MIN = - 2147483648"

definition INT_MAX :: int where
  "INT_MAX = 2147483647"

text \<open>
  The sum of two \<open>int\<close> values: exact where it fits an \<open>int\<close>, and otherwise whatever
  the platform delivers (\<open>ub\<close>).
\<close>

definition int_add :: "(int \<Rightarrow> int \<Rightarrow> int) \<Rightarrow> int \<Rightarrow> int \<Rightarrow> int" where
  "int_add ub a b = (if INT_MIN \<le> a + b \<and> a + b \<le> INT_MAX then a + b else ub a b)"

text \<open>The macro \<open>constrain(amt, low, high)\<close>.\<close>

definition constrain :: "int \<Rightarrow> int \<Rightarrow> int \<Rightarrow> int" where
  "constrain amt lo hi = (if amt < lo then lo else if amt > hi then hi else amt)"

definition HYSTERESIS_PERCENT :: int where
  "HYSTERESIS_PERCENT = 10"

definition PUMP_MAX_RUNTIME_MS :: "32 word" where
  "PUMP_MAX_RUNTIME_MS = 300000"

definition MIN_PUMP_RUN_MS :: "32 word" where
  "MIN_PUMP_RUN_MS = 30000"

definition DATA_BROADCAST_INTERVAL_MS :: "32 word" where
  "DATA_BROADCAST_INTERVAL_MS = 1000"

text \<open>
  The constant \<open>PI\<close> of the Arduino core (\<open>Arduino.h\<close>): a decimal literal, read as a
  \<open>double\<close>.
\<close>

definition PI :: real where
  "PI = dbl 3.1415926535897932384626433832795"

subsection \<open>State\<close>

datatype level = LOW | HIGH

text \<open>
  The JSON document that \<open>broadcastData\<close> sends. \<open>volume\<close> is \<open>None\<close> when the
  float it holds is an infinity.
\<close>

record snapshot =
  water :: int
  pump :: int
  threshold :: int
  topTriggered :: int
  height :: int
  volume :: "f32 option"
  tankHeight :: int
  tankRadius :: int

text \<open>
  The globals of the sketch, then the hardware: \<open>echo_us k\<close> is what the \<open>k\<close>-th call
  of \<open>pulseIn\<close> returns (0 is a timeout), \<open>top_pin k\<close> the level of
  \<open>TOP_SENSOR_PIN\<close> at the \<open>k\<close>-th \<open>digitalRead\<close>, \<open>clock_ms k\<close> the value of the
  \<open>k\<close>-th call of \<open>millis\<close>; the three counters say how many reads have happened.
  \<open>pump_pin\<close> lists the levels written to \<open>PUMP_PIN\<close>, \<open>ws_out\<close> the documents
  sent to the clients, both latest first.
\<close>

record machine =
  tank_height :: f32
  tank_radius :: f32
  low_threshold_percent :: int
  waterPercentage :: int
  lastWaterPercentage :: int
  pumpState :: bool
  pumpStartTs :: "32 word"
  high_threshold_percent :: int
  lastBroadcastTime :: "32 word"
  echo_us :: "nat \<Rightarrow> int"
  top_pin :: "nat \<Rightarrow> level"
  clock_ms :: "nat \<Rightarrow> 32 word"
  echo_reads :: nat
  top_reads :: nat
  clock_reads :: nat
  cast_ub :: "real option \<Rightarrow> int"
  add_ub :: "int \<Rightarrow> int \<Rightarrow> int"
  pump_pin :: "level list"
  ws_out :: "snapshot list"

text \<open>
  The initial values of the globals (lines 38 to 48), on a given hardware. \<open>setup\<close>
  (lines 89 to 128) configures the pins, the access point and the server; it assigns no
  global.
\<close>

definition power_on ::
  "(nat \<Rightarrow> int) \<Rightarrow> (nat \<Rightarrow> level) \<Rightarrow> (nat \<Rightarrow> 32 word) \<Rightarrow> (real option \<Rightarrow> int)
     \<Rightarrow> (int \<Rightarrow> int \<Rightarrow> int) \<Rightarrow> machine" where
  "power_on echo tops clock ub uadd =
     \<lparr>tank_height = flt 100, tank_radius = flt 30, low_threshold_percent = 20,
      waterPercentage = 0, lastWaterPercentage = 0, pumpState = False, pumpStartTs = 0,
      high_threshold_percent = 20 + HYSTERESIS_PERCENT, lastBroadcastTime = 0,
      echo_us = echo, top_pin = tops, clock_ms = clock,
      echo_reads = 0, top_reads = 0, clock_reads = 0,
      cast_ub = ub, add_ub = uadd, pump_pin = [], ws_out = []\<rparr>"

subsection \<open>Hardware reads\<close>

definition millis :: "machine \<Rightarrow> 32 word \<times> machine" where
  "millis s = (clock_ms s (clock_reads s), s\<lparr>clock_reads := Suc (clock_reads s)\<rparr>)"

definition pulseIn :: "machine \<Rightarrow> int \<times> machine" where
  "pulseIn s = (echo_us s (echo_reads s), s\<lparr>echo_reads := Suc (echo_reads s)\<rparr>)"

definition digitalRead_TOP :: "machine \<Rightarrow> level \<times> machine" where
  "digitalRead_TOP s = (top_pin s (top_reads s), s\<lparr>top_reads := Suc (top_reads s)\<rparr>)"

subsection \<open>Helper functions of the sketch\<close>

text \<open>
  \<open>getDistance\<close> (lines 163 to 169). The trigger pulse on \<open>TRIGGER_PIN\<close> has no
  effect on the state modelled here. In \<open>(duration * 0.0343) / 2.0f\<close> the literal
  \<open>0.0343\<close> is a \<open>double\<close>, so the product and the quotient are computed in
  \<open>double\<close> and the result is converted to \<open>float\<close> on return; \<open>tank_height + 10\<close>
  is a sum of floats.
\<close>

definition getDistance :: "machine \<Rightarrow> f32 \<times> machine" where
  "getDistance s =
     (let (duration, s) = pulseIn s
      in (if duration > 0 then flt (dbl (dbl (of_int duration * dbl 0.0343) / 2))
          else fadd (tank_height s) (flt 10), s))"

text \<open>\<open>setPump\<close> (lines 171 to 178).\<close>

definition setPump :: "bool \<Rightarrow> machine \<Rightarrow> machine" where
  "setPump on s =
     (if on \<noteq> pumpState s then
        (let s = s\<lparr>pumpState := on\<rparr>;
             s = s\<lparr>pump_pin := (if pumpState s then HIGH else LOW) # pump_pin s\<rparr>
         in if pumpState s then (let (t, s) = millis s in s\<lparr>pumpStartTs := t\<rparr>) else s)
      else s)"

text \<open>
  The expression \<open>constrain((int)((waterHeight_cm / tank_height) * 100.0f), 0, 100)\<close>,
  which lines 137 and 183 both evaluate: a float division, a float multiplication and
  the cast.
\<close>

definition level_percent :: "(real option \<Rightarrow> int) \<Rightarrow> f32 \<Rightarrow> f32 \<Rightarrow> int" where
  "level_percent ub waterHeight_cm tankHeight_cm =
     constrain (float_to_int ub (fmul (fdiv waterHeight_cm tankHeight_cm) (flt 100))) 0 100"

text \<open>
  The volume of lines 182 and 191. \<open>PI\<close> is a \<open>double\<close>, so the products and the
  division by 1000 are computed in \<open>double\<close> and the result is converted to the
  \<open>float\<close> \<open>volume_l\<close>. In \<open>round(volume_l * 10) / 10.0f\<close> the product is a
  float product, \<open>round\<close> yields the nearest whole number, and the quotient is a float
  division.
\<close>

definition report_volume :: "f32 \<Rightarrow> f32 \<Rightarrow> f32 option" where
  "report_volume radius waterHeight_cm =
     (let volume_l =
            finite32 (flt (dbl (dbl (dbl (dbl (PI * fval radius) * fval radius)
                                      * fval waterHeight_cm) / 1000)))
      in case volume_l of
           None \<Rightarrow> None
         | Some v \<Rightarrow>
             (case finite32 (ftimes v (flt 10)) of
                None \<Rightarrow> None
              | Some w \<Rightarrow> Some (flt (fval (fround w) / 10))))"

text \<open>\<open>broadcastData\<close> (lines 180 to 198).\<close>

definition broadcastData :: "machine \<Rightarrow> machine" where
  "broadcastData s =
     (let (d, s) = getDistance s;
          waterHeight_cm = fmax (flt 0) (fsub (tank_height s) d);
          currentPercentage = level_percent (cast_ub s) waterHeight_cm (tank_height s);
          (top_level, s) = digitalRead_TOP s;
          doc = \<lparr>water = currentPercentage,
                 pump = (if pumpState s then 1 else 0),
                 threshold = low_threshold_percent s,
                 topTriggered = (if top_level = LOW then 1 else 0),
                 height = float_to_int (cast_ub s) (Some waterHeight_cm),
                 volume = report_volume (tank_radius s) waterHeight_cm,
                 tankHeight = float_to_int (cast_ub s) (Some (tank_height s)),
                 tankRadius = float_to_int (cast_ub s) (Some (tank_radius s))\<rparr>
      in s\<lparr>ws_out := doc # ws_out s\<rparr>)"

subsection \<open>The main loop\<close>

text \<open>\<open>loop\<close> (lines 130 to 159): one call of the Arduino main loop.\<close>

definition loop :: "machine \<Rightarrow> machine" where
  "loop s =
     (let (t, s) = millis s
      in if t - lastBroadcastTime s > DATA_BROADCAST_INTERVAL_MS then
           (let (d, s) = getDistance s;
                waterHeight_cm = fmax (flt 0) (fsub (tank_height s) d);
                s = s\<lparr>waterPercentage := level_percent (cast_ub s) waterHeight_cm (tank_height s)\<rparr>;
                wantPump = (if waterPercentage s < low_threshold_percent s then True
                            else if waterPercentage s > high_threshold_percent s then False
                            else pumpState s);
                (top_level, s) = digitalRead_TOP s;
                wantPump = (if top_level = LOW then False else wantPump);
                (wantPump, s) =
                  (if pumpState s then
                     (let (now, s) = millis s;
                          runtime = now - pumpStartTs s;
                          wantPump = (if runtime > PUMP_MAX_RUNTIME_MS then False else wantPump);
                          wantPump = (if runtime > MIN_PUMP_RUN_MS
                                         \<and> waterPercentage s \<le> lastWaterPercentage s
                                      then False else wantPump)
                      in (wantPump, s))
                   else (wantPump, s));
                s = setPump wantPump s;
                s = s\<lparr>lastWaterPercentage := waterPercentage s\<rparr>;
                s = broadcastData s;
                (t, s) = millis s
            in s\<lparr>lastBroadcastTime := t\<rparr>)
         else s)"

subsection \<open>Configuration messages\<close>

text \<open>
  The WebSocket event types and frame opcodes of ESPAsyncWebServer, and the JSON
  document as the handler sees it through ArduinoJson: for each of the three keys,
  \<open>None\<close> when \<open>containsKey\<close> is false and otherwise the value that \<open>as<int>()\<close> or
  \<open>as<float>()\<close> returns. \<open>payload\<close> is \<open>None\<close> when \<open>deserializeJson\<close> does not
  return \<open>Ok\<close>.
\<close>

datatype AwsEventType = WS_EVT_CONNECT | WS_EVT_DISCONNECT | WS_EVT_PONG | WS_EVT_ERROR | WS_EVT_DATA

datatype AwsFrameType = WS_CONTINUATION | WS_TEXT | WS_BINARY | WS_DISCONNECT | WS_PING | WS_PONG

record json_doc =
  key_threshold :: "int option"
  key_height :: "f32 option"
  key_radius :: "f32 option"

record ws_event =
  ev_type :: AwsEventType
  opcode :: AwsFrameType
  payload :: "json_doc option"

text \<open>\<open>onWsEvent\<close> (lines 59 to 87).\<close>

definition onWsEvent :: "ws_event \<Rightarrow> machine \<Rightarrow> machine" where
  "onWsEvent ev s =
     (if ev_type ev = WS_EVT_CONNECT then broadcastData s
      else if ev_type ev = WS_EVT_DISCONNECT then s
      else if ev_type ev = WS_EVT_DATA then
        (if opcode ev = WS_TEXT then
           (case payload ev of
              None \<Rightarrow> s
            | Some doc \<Rightarrow>
                (let s = (case key_threshold doc of
                            None \<Rightarrow> s
                          | Some v \<Rightarrow>
                              (let s = s\<lparr>low_threshold_percent := v\<rparr>
                               in s\<lparr>high_threshold_percent :=
                                      constrain (int_add (add_ub s) (low_threshold_percent s)
                                                   HYSTERESIS_PERCENT) 0 100\<rparr>));
                     s = (case key_height doc of None \<Rightarrow> s | Some v \<Rightarrow> s\<lparr>tank_height := v\<rparr>);
                     s = (case key_radius doc of None \<Rightarrow> s | Some v \<Rightarrow> s\<lparr>tank_radius := v\<rparr>)
                 in broadcastData s))
         else s)
      else s)"

text \<open>
  What the firmware does over time: calls of \<open>loop\<close> and WebSocket events, in any
  order.
\<close>

datatype step = Tick | Message ws_event

fun run :: "step list \<Rightarrow> machine \<Rightarrow> machine" where
  "run [] s = s"
| "run (Tick # steps) s = run steps (loop s)"
| "run (Message ev # steps) s = run steps (onWsEvent ev s)"

subsection \<open>What a call of the main loop reads\<close>

text \<open>
  A call of \<open>loop\<close> in state \<open>s\<close> runs the control tick when the broadcast interval
  has elapsed at its first \<open>millis\<close> read (line 134). The tick then computes its
  percentage from the next echo (lines 136 and 137), reads the top sensor once for the
  decision (line 145) and, when the pump is on, takes the next \<open>millis\<close> read for the
  runtime (line 147).
\<close>

definition tick_due :: "machine \<Rightarrow> bool" where
  "tick_due s = (clock_ms s (clock_reads s) - lastBroadcastTime s > DATA_BROADCAST_INTERVAL_MS)"

definition tick_overflow :: "machine \<Rightarrow> bool" where
  "tick_overflow s = (top_pin s (top_reads s) = LOW)"

definition tick_runtime :: "machine \<Rightarrow> 32 word" where
  "tick_runtime s = clock_ms s (Suc (clock_reads s)) - pumpStartTs s"

definition tick_height :: "machine \<Rightarrow> f32" where
  "tick_height s = fmax (flt 0) (fsub (tank_height s) (fst (getDistance s)))"

definition tick_percent :: "machine \<Rightarrow> int" where
  "tick_percent s = level_percent (cast_ub s) (tick_height s) (tank_height s)"

subsection \<open>The percentage as the specification words it\<close>


subsection \<open>Concrete hardware and messages\<close>

text \<open>A sensor that never answers, and sensors that answer once or from the third read on.\<close>

definition echo_none :: "nat \<Rightarrow> int" where
  "echo_none k = 0"



definition echo_4373 :: "nat \<Rightarrow> int" where
  "echo_4373 k = 4373"

definition echo_once :: "nat \<Rightarrow> int" where
  "echo_once k = (if k = 0 then 4373 else 0)"

definition echo_late :: "nat \<Rightarrow> int" where
  "echo_late k = (if k < 2 then 0 else 4373)"

text \<open>The top sensor open (pulled up) or triggered.\<close>

definition top_high :: "nat \<Rightarrow> level" where
  "top_high k = HIGH"

definition top_low :: "nat \<Rightarrow> level" where
  "top_low k = LOW"

text \<open>Clocks that advance by 2 s, 40 s and 200 s between two reads.\<close>

definition clock_2s :: "nat \<Rightarrow> 32 word" where
  "clock_2s k = 2000 * (of_nat k + 1)"

definition clock_40s :: "nat \<Rightarrow> 32 word" where
  "clock_40s k = 40000 * (of_nat k + 1)"

definition clock_200s :: "nat \<Rightarrow> 32 word" where
  "clock_200s k = 200000 * (of_nat k + 1)"

text \<open>A platform whose undefined conversions and sums saturate.\<close>

definition ub_max :: "real option \<Rightarrow> int" where
  "ub_max v = INT_MAX"

definition sum_max :: "int \<Rightarrow> int \<Rightarrow> int" where
  "sum_max a b = INT_MAX"

definition board :: "(nat \<Rightarrow> int) \<Rightarrow> (nat \<Rightarrow> level) \<Rightarrow> (nat \<Rightarrow> 32 word) \<Rightarrow> machine" where
  "board echo tops clock = power_on echo tops clock ub_max sum_max"

text \<open>A text frame that carries a configuration document.\<close>

definition config_event :: "int option \<Rightarrow> f32 option \<Rightarrow> f32 option \<Rightarrow> ws_event" where
  "config_event t h r =
     \<lparr>ev_type = WS_EVT_DATA, opcode = WS_TEXT,
      payload = Some \<lparr>key_threshold = t, key_height = h, key_radius = r\<rparr>\<rparr>"

section \<open>Properties of the arithmetic\<close>

subsection \<open>Exponents and rounding\<close>

lemma powi_eval: "(2::real) powi e = (if 0 \<le> e then 2 ^ nat e else 1 / 2 ^ nat (- e))"
  by (simp add: power_int_def power_inverse inverse_eq_divide power_one_over)

lemma bits_bounds:
  "0 < n \<Longrightarrow> 2 ^ (bits n - 1) \<le> n \<and> n < 2 ^ bits n"
proof (induction n rule: bits.induct)
  case (1 n)
  show ?case
  proof (cases "n div 2 = 0")
    case True
    with 1(2) have "n = 1" by linarith
    then show ?thesis by (simp add: bits.simps)
  next
    case False
    then have h: "2 ^ (bits (n div 2) - 1) \<le> n div 2" "n div 2 < 2 ^ bits (n div 2)"
      using 1 by simp_all
    have pos: "0 < bits (n div 2)"
      using False by (simp add: bits.simps [of "n div 2"])
    have b: "bits n = Suc (bits (n div 2))"
      using 1(2) by (simp add: bits.simps [of n])
    have "(2::nat) ^ bits (n div 2) = 2 * 2 ^ (bits (n div 2) - 1)"
      using pos by (cases "bits (n div 2)") simp_all
    with h have "2 ^ bits (n div 2) \<le> n" by linarith
    moreover have "n < 2 * 2 ^ bits (n div 2)"
      using h(2) by linarith
    ultimately show ?thesis by (simp add: b)
  qed
qed

lemma bits_pos: "0 < n \<Longrightarrow> 0 < bits n"
  by (simp add: bits.simps [of n])

text \<open>\<open>expo\<close> is the binary exponent: the number lies in the binade it names.\<close>

lemma expo_bounds:
  assumes "x \<noteq> 0"
  shows "2 powi expo x \<le> \<bar>x\<bar>" and "\<bar>x\<bar> < 2 powi (expo x + 1)"
proof -
  have "2 powi expo x \<le> \<bar>x\<bar> \<and> \<bar>x\<bar> < 2 powi (expo x + 1)"
  proof (cases "1 \<le> \<bar>x\<bar>")
    case True
    define n where "n = nat \<lfloor>\<bar>x\<bar>\<rfloor>"
    have n0: "0 < n"
      using True by (simp add: n_def)
    have "real n = of_int \<lfloor>\<bar>x\<bar>\<rfloor>"
      using True by (simp add: n_def)
    then have n: "real n \<le> \<bar>x\<bar>" "\<bar>x\<bar> < real n + 1"
      by linarith+
    have e: "expo x = int (bits n) - 1"
      using True by (simp add: expo_def n_def)
    have k: "0 < bits n" using n0 by (rule bits_pos)
    have E1: "(2::real) powi expo x = 2 ^ (bits n - 1)"
      using k by (simp add: e power_int_def nat_diff_distrib')
    have E2: "(2::real) powi (expo x + 1) = 2 ^ bits n"
      by (simp add: e)
    from bits_bounds [OF n0] have a: "2 ^ (bits n - 1) \<le> n" "Suc n \<le> 2 ^ bits n"
      by simp_all
    have "real (2 ^ (bits n - 1)) \<le> real n"
      using a(1) by (simp only: of_nat_le_iff)
    moreover have "real (Suc n) \<le> real (2 ^ bits n)"
      using a(2) by (simp only: of_nat_le_iff)
    ultimately have bb: "(2::real) ^ (bits n - 1) \<le> real n" "real n + 1 \<le> (2::real) ^ bits n"
      by simp_all
    show ?thesis
      unfolding E1 E2 using bb n by linarith
  next
    case False
    define y where "y = 1 / \<bar>x\<bar>"
    define m where "m = nat (\<lceil>y\<rceil> - 1)"
    have x: "0 < \<bar>x\<bar>" "\<bar>x\<bar> < 1" using assms False by simp_all
    have y: "1 < y" using x by (simp add: y_def)
    have c: "real_of_int \<lceil>y\<rceil> - 1 < y" "y \<le> real_of_int \<lceil>y\<rceil>"
      by linarith+
    have "2 \<le> \<lceil>y\<rceil>" using y by linarith
    then have m: "0 < m" "real m = real_of_int \<lceil>y\<rceil> - 1"
      by (simp_all add: m_def)
    have e: "expo x = - int (bits m)"
      using False by (simp add: expo_def m_def y_def)
    have k: "0 < bits m" using m(1) by (rule bits_pos)
    from bits_bounds [OF m(1)] have a: "2 ^ (bits m - 1) \<le> m" "Suc m \<le> 2 ^ bits m"
      by simp_all
    have "real (2 ^ (bits m - 1)) \<le> real m"
      using a(1) by (simp only: of_nat_le_iff)
    moreover have "real (Suc m) \<le> real (2 ^ bits m)"
      using a(2) by (simp only: of_nat_le_iff)
    ultimately have b: "(2::real) ^ (bits m - 1) \<le> real m" "real m + 1 \<le> (2::real) ^ bits m"
      by simp_all
    have y1: "2 ^ (bits m - 1) < y" "y \<le> 2 ^ bits m"
      using b m(2) c by linarith+
    have E1: "(2::real) powi expo x = 1 / 2 ^ bits m"
      by (simp add: e power_int_minus_divide)
    have E2: "(2::real) powi (expo x + 1) = 1 / 2 ^ (bits m - 1)"
      using k by (cases "bits m") (simp_all add: e power_int_def power_one_over)
    have "1 / 2 ^ bits m \<le> \<bar>x\<bar>"
      using y1(2) x by (simp add: y_def field_simps)
    moreover have "\<bar>x\<bar> < 1 / 2 ^ (bits m - 1)"
      using y1(1) x by (simp add: y_def field_simps)
    ultimately show ?thesis
      unfolding E1 E2 by simp
  qed
  then show "2 powi expo x \<le> \<bar>x\<bar>" and "\<bar>x\<bar> < 2 powi (expo x + 1)" by simp_all
qed

lemma round_even_bounds:
  "\<lfloor>t\<rfloor> \<le> round_even t" "round_even t \<le> \<lceil>t\<rceil>"
  "\<bar>of_int (round_even t) - t\<bar> \<le> 1 / 2"
proof -
  have f: "of_int \<lfloor>t\<rfloor> \<le> t" "t < of_int \<lfloor>t\<rfloor> + 1" by linarith+
  show "\<lfloor>t\<rfloor> \<le> round_even t"
    by (simp add: round_even_def Let_def)
  show "round_even t \<le> \<lceil>t\<rceil>"
    unfolding round_even_def Let_def using f by (auto simp: ceiling_def) linarith+
  show "\<bar>of_int (round_even t) - t\<bar> \<le> 1 / 2"
    unfolding round_even_def Let_def using f by auto
qed


lemma pow2_add: "(2::real) powi (a + b) = 2 powi a * 2 powi b"
  by (simp add: power_int_add)

lemma expo_minus: "expo (- x) = expo x"
  by (simp add: expo_def)

lemma rnd_minus: "rnd p (- x) = - rnd p x"
  by (simp add: rnd_def expo_minus Let_def)

lemma rnd_zero: "rnd p 0 = 0"
  by (simp add: rnd_def)

lemma rnd_pos:
  "0 < x \<Longrightarrow> rnd p x
     = 2 powi (expo x - int p + 1) * of_int (round_even (x / 2 powi (expo x - int p + 1)))"
  by (simp add: rnd_def Let_def)

lemma scaled_bounds:
  assumes "0 < x" and "0 < p"
  shows "2 ^ (p - 1) \<le> x / 2 powi (expo x - int p + 1)"
    and "x / 2 powi (expo x - int p + 1) < 2 ^ p"
    and "(2::real) powi expo x = 2 powi (expo x - int p + 1) * 2 ^ (p - 1)"
proof -
  let ?u = "(2::real) powi (expo x - int p + 1)"
  have u: "0 < ?u" by simp
  have ex0: "expo x = (expo x - int p + 1) + (int p - 1)"
    by simp
  have "(2::real) powi expo x = ?u * 2 powi (int p - 1)"
    by (subst ex0) (rule pow2_add)
  moreover have "(2::real) powi (int p - 1) = 2 ^ (p - 1)"
    using assms(2) by (simp add: power_int_def nat_diff_distrib')
  ultimately show e1: "2 powi expo x = ?u * 2 ^ (p - 1)" by simp
  have ex: "expo x + 1 = (expo x - int p + 1) + int p"
    by simp
  have "(2::real) powi (expo x + 1) = ?u * 2 powi (int p)"
    by (subst ex) (rule pow2_add)
  then have e2: "(2::real) powi (expo x + 1) = ?u * 2 ^ p" by simp
  have x: "2 powi expo x \<le> x" "x < 2 powi (expo x + 1)"
    using expo_bounds [of x] assms(1) by simp_all
  show "2 ^ (p - 1) \<le> x / ?u"
    using x(1) u unfolding e1 by (simp add: pos_le_divide_eq mult.commute)
  show "x / ?u < 2 ^ p"
    using x(2) u unfolding e2 by (simp add: pos_divide_less_eq mult.commute)
qed




lemma representable_minus: "representable p (- y) = representable p y"
proof
  assume "representable p (- y)"
  then obtain m k where "- y = of_int m * 2 powi k" "\<bar>m\<bar> < 2 ^ p"
    unfolding representable_def by blast
  then have "y = of_int (- m) * 2 powi k \<and> \<bar>- m\<bar> < 2 ^ p" by simp
  then show "representable p y" unfolding representable_def by blast
next
  assume "representable p y"
  then obtain m k where "y = of_int m * 2 powi k" "\<bar>m\<bar> < 2 ^ p"
    unfolding representable_def by blast
  then have "- y = of_int (- m) * 2 powi k \<and> \<bar>- m\<bar> < 2 ^ p" by simp
  then show "representable p (- y)" unfolding representable_def by blast
qed

lemma representable_int: "\<bar>n\<bar> < 2 ^ p \<Longrightarrow> representable p (of_int n)"
proof -
  assume "\<bar>n\<bar> < 2 ^ p"
  then have "of_int n = of_int n * (2::real) powi 0 \<and> \<bar>n\<bar> < 2 ^ p" by simp
  then show ?thesis unfolding representable_def by blast
qed

text \<open>
  A rounding never crosses a representable number: what lies below the argument stays
  below the result, and what lies above stays above. Every result is representable, and
  a representable number is its own rounding.
\<close>

lemma representable_grid:
  assumes "representable p y" and "0 < y" and "0 < x" and "0 < p"
  shows "(\<exists>N. y = 2 powi (expo x - int p + 1) * of_int N) \<or> y < 2 powi expo x"
proof -
  let ?j = "expo x - int p + 1"
  obtain m k where y: "y = of_int m * 2 powi k" and m: "\<bar>m\<bar> < 2 ^ p"
    using assms(1) unfolding representable_def by blast
  have pk: "0 < (2::real) powi k" by simp
  have "0 < real_of_int m * 2 powi k"
    using assms(2) unfolding y .
  then have "0 < real_of_int m"
    using pk by (rule zero_less_mult_pos2)
  then have mpos: "0 < m" by simp
  show ?thesis
  proof (cases "?j \<le> k")
    case True
    have "k = ?j + (k - ?j)" by simp
    then have "(2::real) powi k = 2 powi ?j * 2 powi (k - ?j)"
      by (metis pow2_add)
    moreover have "(2::real) powi (k - ?j) = 2 ^ nat (k - ?j)"
      using True by (simp add: power_int_def)
    ultimately have "y = 2 powi ?j * of_int (m * 2 ^ nat (k - ?j))"
      unfolding y by simp
    then show ?thesis by blast
  next
    case False
    then have le: "int p + k \<le> expo x" by simp
    have "real_of_int m < 2 ^ p"
      using m mpos by (metis abs_of_pos of_int_less_numeral_power_cancel_iff)
    then have "y < 2 ^ p * 2 powi k"
      unfolding y by simp
    also have "\<dots> = 2 powi (int p + k)"
      by (simp add: pow2_add)
    also have "\<dots> \<le> 2 powi expo x"
      using le by (simp add: power_int_increasing)
    finally show ?thesis by blast
  qed
qed

lemma rnd_lower_pos:
  assumes "representable p y" and "0 < y" and "y \<le> x" and "0 < p"
  shows "y \<le> rnd p x"
proof -
  let ?u = "(2::real) powi (expo x - int p + 1)"
  let ?t = "x / ?u"
  have x: "0 < x" using assms by simp
  have u: "0 < ?u" by simp
  have r: "rnd p x = ?u * of_int (round_even ?t)"
    using x by (rule rnd_pos)
  have fl: "real_of_int \<lfloor>?t\<rfloor> \<le> of_int (round_even ?t)"
    using round_even_bounds(1) [of ?t] by simp
  from representable_grid [OF assms(1,2) x assms(4)] show ?thesis
  proof
    assume "\<exists>N. y = ?u * of_int N"
    then obtain N where N: "y = ?u * of_int N" by blast
    have "of_int N \<le> ?t"
      using assms(3) u unfolding N by (simp add: pos_le_divide_eq mult.commute)
    then have "N \<le> \<lfloor>?t\<rfloor>" by (simp add: le_floor_iff)
    then have "real_of_int N \<le> of_int (round_even ?t)"
      using fl by linarith
    then show ?thesis
      unfolding N r using u by simp
  next
    assume "y < 2 powi expo x"
    also have "(2::real) powi expo x = ?u * 2 ^ (p - 1)"
      using scaled_bounds(3) [OF x assms(4)] .
    finally have y: "y < ?u * 2 ^ (p - 1)" .
    have "(2::real) ^ (p - 1) = of_int (2 ^ (p - 1))" by simp
    moreover have "2 ^ (p - 1) \<le> ?t"
      using scaled_bounds(1) [OF x assms(4)] .
    ultimately have "(2::int) ^ (p - 1) \<le> \<lfloor>?t\<rfloor>"
      by (simp add: le_floor_iff)
    then have "real_of_int (2 ^ (p - 1)) \<le> of_int \<lfloor>?t\<rfloor>"
      by (simp only: of_int_le_iff)
    then have "(2::real) ^ (p - 1) \<le> of_int (round_even ?t)"
      using fl by simp
    then have "?u * 2 ^ (p - 1) \<le> ?u * of_int (round_even ?t)"
      using u by simp
    with y show ?thesis unfolding r by linarith
  qed
qed

lemma rnd_upper_pos:
  assumes "representable p y" and "0 < x" and "x \<le> y" and "0 < p"
  shows "rnd p x \<le> y"
proof -
  let ?u = "(2::real) powi (expo x - int p + 1)"
  let ?t = "x / ?u"
  have ypos: "0 < y" using assms by simp
  have u: "0 < ?u" by simp
  have r: "rnd p x = ?u * of_int (round_even ?t)"
    using assms(2) by (rule rnd_pos)
  have cl: "real_of_int (round_even ?t) \<le> of_int \<lceil>?t\<rceil>"
    using round_even_bounds(2) [of ?t] by simp
  from representable_grid [OF assms(1) ypos assms(2,4)] show ?thesis
  proof
    assume "\<exists>N. y = ?u * of_int N"
    then obtain N where N: "y = ?u * of_int N" by blast
    have "?t \<le> of_int N"
      using assms(3) u unfolding N by (simp add: pos_divide_le_eq mult.commute)
    then have "\<lceil>?t\<rceil> \<le> N" by (simp add: ceiling_le_iff)
    then have "real_of_int (round_even ?t) \<le> of_int N"
      using cl by linarith
    then show ?thesis
      unfolding N r using u by simp
  next
    assume "y < 2 powi expo x"
    moreover have "2 powi expo x \<le> x"
      using expo_bounds(1) [of x] assms(2) by simp
    ultimately show ?thesis using assms(3) by linarith
  qed
qed

lemma rnd_ge:
  assumes "representable p y" and "y \<le> x" and "0 < p"
  shows "y \<le> rnd p x"
proof -
  consider "0 < y" | "y \<le> 0" "0 < x" | "y \<le> 0" "x = 0" | "x < 0" by linarith
  then show ?thesis
  proof cases
    case 1
    then show ?thesis using assms by (simp add: rnd_lower_pos)
  next
    case 2
    let ?t = "x / 2 powi (expo x - int p + 1)"
    have "0 \<le> ?t" using 2 by simp
    then have "0 \<le> \<lfloor>?t\<rfloor>" by simp
    then have "0 \<le> round_even ?t"
      using round_even_bounds(1) [of ?t] by linarith
    then have "0 \<le> rnd p x"
      using 2 by (simp add: rnd_pos)
    with 2 show ?thesis by simp
  next
    case 3
    then show ?thesis by (simp add: rnd_zero)
  next
    case 4
    have "rnd p (- x) \<le> - y"
      using 4 assms by (intro rnd_upper_pos) (simp_all add: representable_minus)
    then show ?thesis by (simp add: rnd_minus)
  qed
qed

lemma rnd_le:
  assumes "representable p y" and "x \<le> y" and "0 < p"
  shows "rnd p x \<le> y"
proof -
  have "- y \<le> rnd p (- x)"
    using assms by (intro rnd_ge) (simp_all add: representable_minus)
  then show ?thesis by (simp add: rnd_minus)
qed

lemma rnd_representable:
  assumes "0 < p"
  shows "representable p (rnd p z)"
proof -
  have pos: "representable p (rnd p x)" if x: "0 < x" for x
  proof -
    let ?j = "expo x - int p + 1"
    let ?t = "x / 2 powi ?j"
    let ?R = "round_even ?t"
    have r: "rnd p x = of_int ?R * 2 powi ?j"
      using x by (simp add: rnd_pos mult.commute)
    have "(2::int) ^ (p - 1) \<le> \<lfloor>?t\<rfloor>"
      using scaled_bounds(1) [OF x assms] by (simp add: le_floor_iff)
    moreover have "0 < (2::int) ^ (p - 1)"
      by simp
    ultimately have lo: "0 < ?R"
      using round_even_bounds(1) [of ?t] by linarith
    have "\<lceil>?t\<rceil> \<le> 2 ^ p"
      using scaled_bounds(2) [OF x assms] by (simp add: ceiling_le_iff)
    then have hi: "?R \<le> 2 ^ p"
      using round_even_bounds(2) [of ?t] by linarith
    show ?thesis
    proof (cases "?R < 2 ^ p")
      case True
      with lo r show ?thesis unfolding representable_def by (metis abs_of_pos)
    next
      case False
      with hi have R: "?R = 2 ^ p" by simp
      have "(2::real) ^ p = 2 ^ (p - 1) * 2"
        using assms by (cases p) simp_all
      then have "rnd p x = of_int (2 ^ (p - 1)) * 2 powi (?j + 1)"
        unfolding r R by (simp add: pow2_add)
      moreover have "\<bar>(2::int) ^ (p - 1)\<bar> < 2 ^ p"
        using assms by simp
      ultimately show ?thesis unfolding representable_def by blast
    qed
  qed
  consider "0 < z" | "z = 0" | "0 < - z" by linarith
  then show ?thesis
  proof cases
    case 1
    then show ?thesis by (rule pos)
  next
    case 2
    then show ?thesis using representable_int [of 0 p] by (simp add: rnd_zero)
  next
    case 3
    from pos [OF 3] show ?thesis by (simp add: rnd_minus representable_minus)
  qed
qed

lemma rnd_idem: "representable p y \<Longrightarrow> 0 < p \<Longrightarrow> rnd p y = y"
  using rnd_ge [of p y y] rnd_le [of p y y] by simp

subsection \<open>Floats\<close>

lemma fval_flt: "fval (flt x) = rnd 24 x"
  by (simp add: flt_def Abs_f32_inverse)

lemma fval_representable: "representable 24 (fval a)"
proof -
  obtain z where "fval a = rnd 24 z"
    using fval [of a] by blast
  then show ?thesis by (simp add: rnd_representable)
qed

lemma flt_fval: "flt (fval a) = a"
  by (simp add: flt_def rnd_idem fval_representable fval_inverse)

lemma fval_flt_int: "\<bar>n\<bar> < 2 ^ 24 \<Longrightarrow> fval (flt (of_int n)) = of_int n"
  by (simp add: fval_flt rnd_idem representable_int)

lemma rnd24_consts: "rnd 24 0 = 0" "rnd 24 1 = 1" "rnd 24 10 = 10" "rnd 24 100 = 100"
  using rnd_idem [OF representable_int [of 0 24]] rnd_idem [OF representable_int [of 1 24]]
    rnd_idem [OF representable_int [of 10 24]] rnd_idem [OF representable_int [of 100 24]]
  by simp_all

lemma fval_flt_0: "fval (flt 0) = 0"
  by (simp add: fval_flt rnd_zero)

lemma fval_flt_10: "fval (flt 10) = 10"
  using fval_flt_int [of 10] by simp

lemma fval_flt_100: "fval (flt 100) = 100"
  using fval_flt_int [of 100] by simp

lemma flt_ge: "fval a \<le> x \<Longrightarrow> fval a \<le> fval (flt x)"
  by (simp add: fval_flt rnd_ge fval_representable)


lemma flt_nonneg: "0 \<le> x \<Longrightarrow> 0 \<le> fval (flt x)"
  using rnd_ge [of 24 0 x] representable_int [of 0 24] by (simp add: fval_flt)

lemma flt_nonpos: "x \<le> 0 \<Longrightarrow> fval (flt x) \<le> 0"
  using rnd_le [of 24 0 x] representable_int [of 0 24] by (simp add: fval_flt)


lemma dbl_pos: "0 < x \<Longrightarrow> 0 < dbl x"
proof -
  assume x: "0 < x"
  let ?t = "x / 2 powi (expo x - int 53 + 1)"
  have "(2::real) ^ (53 - 1) \<le> ?t"
    using x by (intro scaled_bounds(1)) simp_all
  moreover have "(1::real) \<le> 2 ^ (53 - 1)"
    by simp
  ultimately have "1 \<le> ?t"
    by linarith
  then have "1 \<le> \<lfloor>?t\<rfloor>" by (simp add: le_floor_iff)
  then have "0 < round_even ?t"
    using round_even_bounds(1) [of ?t] by linarith
  then show ?thesis
    using x by (simp add: dbl_def rnd_pos)
qed

lemma dbl_nonneg: "0 \<le> x \<Longrightarrow> 0 \<le> dbl x"
  using rnd_ge [of 53 0 x] representable_int [of 0 53] by (simp add: dbl_def)


text \<open>The rules that evaluate a rounding on numerals.\<close>

lemmas rnd_eval = rnd_def expo_def round_even_def bits.simps powi_eval Let_def

section \<open>Properties of the firmware\<close>

subsection \<open>Each function as one update of the state\<close>

lemmas tick_defs = tick_due_def tick_overflow_def tick_runtime_def tick_percent_def tick_height_def

lemma getDistance_eq:
  "getDistance s = (fst (getDistance s), s\<lparr>echo_reads := Suc (echo_reads s)\<rparr>)"
  by (simp add: getDistance_def pulseIn_def)

lemma fst_getDistance:
  "fst (getDistance s) =
     (if echo_us s (echo_reads s) > 0
      then flt (dbl (dbl (of_int (echo_us s (echo_reads s)) * dbl 0.0343) / 2))
      else fadd (tank_height s) (flt 10))"
  by (simp add: getDistance_def pulseIn_def)

lemma setPump_eq:
  "setPump on s =
     s\<lparr>pumpState := on,
       pump_pin := (if on = pumpState s then pump_pin s else (if on then HIGH else LOW) # pump_pin s),
       clock_reads := (if on \<and> \<not> pumpState s then Suc (clock_reads s) else clock_reads s),
       pumpStartTs := (if on \<and> \<not> pumpState s then clock_ms s (clock_reads s) else pumpStartTs s)\<rparr>"
  by (cases on) (simp_all add: setPump_def millis_def Let_def)

lemma broadcastData_eq:
  "broadcastData s =
     s\<lparr>echo_reads := Suc (echo_reads s), top_reads := Suc (top_reads s),
       ws_out :=
         \<lparr>water = tick_percent s,
          pump = (if pumpState s then 1 else 0),
          threshold = low_threshold_percent s,
          topTriggered = (if tick_overflow s then 1 else 0),
          height = float_to_int (cast_ub s) (Some (tick_height s)),
          volume = report_volume (tank_radius s) (tick_height s),
          tankHeight = float_to_int (cast_ub s) (Some (tank_height s)),
          tankRadius = float_to_int (cast_ub s) (Some (tank_radius s))\<rparr> # ws_out s\<rparr>"
  unfolding broadcastData_def tick_percent_def tick_height_def tick_overflow_def digitalRead_TOP_def
  by (subst getDistance_eq) (simp add: Let_def)

lemma onWsEvent_config:
  "onWsEvent (config_event t h r) s =
     broadcastData
       (s\<lparr>low_threshold_percent := (case t of None \<Rightarrow> low_threshold_percent s | Some v \<Rightarrow> v),
          high_threshold_percent :=
            (case t of None \<Rightarrow> high_threshold_percent s
             | Some v \<Rightarrow> constrain (int_add (add_ub s) v HYSTERESIS_PERCENT) 0 100),
          tank_height := (case h of None \<Rightarrow> tank_height s | Some v \<Rightarrow> v),
          tank_radius := (case r of None \<Rightarrow> tank_radius s | Some v \<Rightarrow> v)\<rparr>)"
  by (simp add: onWsEvent_def config_event_def Let_def split: option.splits)

subsection \<open>The fields of the state after a call of the main loop\<close>

lemmas loop_unfold = loop_def millis_def getDistance_def pulseIn_def digitalRead_TOP_def
  setPump_eq broadcastData_eq tick_defs Let_def

lemma loop_not_due:
  "\<not> tick_due s \<Longrightarrow> loop s = s\<lparr>clock_reads := Suc (clock_reads s)\<rparr>"
  by (simp add: loop_def tick_due_def millis_def)

lemma loop_waterPercentage:
  "tick_due s \<Longrightarrow> waterPercentage (loop s) = tick_percent s"
  by (cases "pumpState s") (simp_all add: loop_unfold)

lemma loop_lastWaterPercentage:
  "tick_due s \<Longrightarrow> lastWaterPercentage (loop s) = tick_percent s"
  by (cases "pumpState s") (simp_all add: loop_unfold)

lemma loop_pumpState:
  "tick_due s \<Longrightarrow>
   pumpState (loop s) =
     ((if tick_percent s < low_threshold_percent s then True
       else if tick_percent s > high_threshold_percent s then False
       else pumpState s)
      \<and> \<not> tick_overflow s
      \<and> \<not> (pumpState s \<and> tick_runtime s > PUMP_MAX_RUNTIME_MS)
      \<and> \<not> (pumpState s \<and> tick_runtime s > MIN_PUMP_RUN_MS
             \<and> tick_percent s \<le> lastWaterPercentage s))"
  by (cases "pumpState s") (simp_all add: loop_unfold)

lemma loop_pump_pin:
  "tick_due s \<Longrightarrow>
   pump_pin (loop s) =
     (if pumpState (loop s) = pumpState s then pump_pin s
      else (if pumpState (loop s) then HIGH else LOW) # pump_pin s)"
  by (cases "pumpState s") (simp_all add: loop_unfold)

lemma loop_pumpStartTs:
  "tick_due s \<Longrightarrow>
   pumpStartTs (loop s) =
     (if pumpState (loop s) \<and> \<not> pumpState s then clock_ms s (Suc (clock_reads s))
      else pumpStartTs s)"
  by (cases "pumpState s") (simp_all add: loop_unfold)

lemma loop_clock_reads:
  "tick_due s \<Longrightarrow>
   clock_reads (loop s) =
     (if pumpState s \<or> pumpState (loop s) then Suc (Suc (Suc (clock_reads s)))
      else Suc (Suc (clock_reads s)))"
  by (cases "pumpState s") (simp_all add: loop_unfold)

lemma loop_lastBroadcastTime:
  "tick_due s \<Longrightarrow>
   lastBroadcastTime (loop s) =
     clock_ms s (if pumpState s \<or> pumpState (loop s) then Suc (Suc (clock_reads s))
                 else Suc (clock_reads s))"
  by (cases "pumpState s") (simp_all add: loop_unfold)

lemma loop_reads:
  "tick_due s \<Longrightarrow> echo_reads (loop s) = Suc (Suc (echo_reads s))"
  "tick_due s \<Longrightarrow> top_reads (loop s) = Suc (Suc (top_reads s))"
  by (cases "pumpState s"; simp add: loop_unfold)+

lemma loop_frame:
  "tank_height (loop s) = tank_height s"
  "tank_radius (loop s) = tank_radius s"
  "low_threshold_percent (loop s) = low_threshold_percent s"
  "high_threshold_percent (loop s) = high_threshold_percent s"
  "echo_us (loop s) = echo_us s"
  "top_pin (loop s) = top_pin s"
  "clock_ms (loop s) = clock_ms s"
  "cast_ub (loop s) = cast_ub s"
  "add_ub (loop s) = add_ub s"
  by (cases "pumpState s"; simp add: loop_unfold)+

lemma loop_ws_out:
  "tick_due s \<Longrightarrow>
   ws_out (loop s) =
     hd (ws_out (broadcastData
           (s\<lparr>echo_reads := Suc (echo_reads s), top_reads := Suc (top_reads s),
              pumpState := pumpState (loop s)\<rparr>))) # ws_out s"
  by (cases "pumpState s") (simp_all add: loop_unfold)

lemmas loop_fields = loop_waterPercentage loop_lastWaterPercentage loop_pumpState loop_pump_pin
  loop_pumpStartTs loop_clock_reads loop_lastBroadcastTime loop_reads loop_frame loop_ws_out

text \<open>The rules that evaluate the model on concrete hardware.\<close>

lemmas eval_defs = board_def power_on_def ub_max_def sum_max_def
  loop_fields tick_defs fst_getDistance broadcastData_eq onWsEvent_config
  level_percent_def report_volume_def finite32_def FLT_MAX_def
  fdiv_def fmul_def fadd_def fsub_def ftimes_def fmax_def fround_def cround_def
  float_to_int_def trunc_def constrain_def PI_def dbl_def int_add_def fval_flt rnd_eval
  DATA_BROADCAST_INTERVAL_MS_def HYSTERESIS_PERCENT_def PUMP_MAX_RUNTIME_MS_def
  MIN_PUMP_RUN_MS_def INT_MAX_def INT_MIN_def

subsection \<open>The overflow interlock\<close>

text \<open>
  C1. On a tick whose read of the top sensor returns LOW (overflow triggered), the pump is
  off after the tick whatever the percentage, the thresholds and the previous pump state:
  the only level the tick can write to the pump pin is LOW, and the snapshot reports the
  pump as off.
\<close>

theorem overflow_forces_off:
  assumes "tick_due s" and "tick_overflow s"
  shows "\<not> pumpState (loop s)
         \<and> pump_pin (loop s) = (if pumpState s then LOW # pump_pin s else pump_pin s)
         \<and> pump (hd (ws_out (loop s))) = 0"
proof -
  have off: "\<not> pumpState (loop s)"
    using assms by (simp add: loop_pumpState)
  moreover have "pump_pin (loop s) = (if pumpState s then LOW # pump_pin s else pump_pin s)"
    using assms off by (simp add: loop_pump_pin)
  moreover have "pump (hd (ws_out (loop s))) = 0"
    using assms off by (simp add: loop_ws_out broadcastData_eq)
  ultimately show ?thesis by simp
qed

theorem overflow_forces_off_witness:
  "tick_due (board echo_none top_low clock_2s)
   \<and> tick_overflow (board echo_none top_low clock_2s)
   \<and> tick_percent (board echo_none top_low clock_2s)
       < low_threshold_percent (board echo_none top_low clock_2s)
   \<and> \<not> pumpState (loop (board echo_none top_low clock_2s))"
proof -
  have due: "tick_due (board echo_none top_low clock_2s)"
    by (simp add: eval_defs echo_none_def top_low_def clock_2s_def)
  have ovf: "tick_overflow (board echo_none top_low clock_2s)"
    by (simp add: eval_defs echo_none_def top_low_def clock_2s_def)
  have "tick_percent (board echo_none top_low clock_2s)
          < low_threshold_percent (board echo_none top_low clock_2s)"
    by (simp add: eval_defs echo_none_def top_low_def clock_2s_def)
  with due ovf overflow_forces_off [OF due ovf] show ?thesis by simp
qed

subsection \<open>Hysteresis\<close>

text \<open>
  C2. On a tick with the overflow input not triggered and neither runtime cutoff firing,
  the pump state after the tick is the hysteresis decision on the tick's percentage: on
  below the low threshold, off above the high threshold, and the previous state in
  between, whichever that state was.
\<close>

theorem hysteresis_decision:
  assumes "tick_due s" and "\<not> tick_overflow s"
    and "\<not> (pumpState s \<and> tick_runtime s > 300000)"
    and "\<not> (pumpState s \<and> tick_runtime s > 30000 \<and> tick_percent s \<le> lastWaterPercentage s)"
  shows "waterPercentage (loop s) = tick_percent s
         \<and> pumpState (loop s) =
             (if tick_percent s < low_threshold_percent s then True
              else if tick_percent s > high_threshold_percent s then False
              else pumpState s)"
  using assms
  by (simp add: loop_waterPercentage loop_pumpState PUMP_MAX_RUNTIME_MS_def MIN_PUMP_RUN_MS_def)

theorem hysteresis_decision_witness:
  "tick_due (loop (board echo_late top_high clock_2s))
   \<and> pumpState (loop (board echo_late top_high clock_2s))
   \<and> tick_percent (loop (board echo_late top_high clock_2s)) = 25
   \<and> pumpState (loop (loop (board echo_late top_high clock_2s)))
   \<and> tick_due (board echo_4373 top_high clock_2s)
   \<and> \<not> pumpState (board echo_4373 top_high clock_2s)
   \<and> tick_percent (board echo_4373 top_high clock_2s) = 25
   \<and> \<not> pumpState (loop (board echo_4373 top_high clock_2s))"
proof -
  let ?on = "loop (board echo_late top_high clock_2s)"
  let ?off = "board echo_4373 top_high clock_2s"
  have on: "tick_due ?on" "\<not> tick_overflow ?on" "\<not> (pumpState ?on \<and> tick_runtime ?on > 300000)"
    "\<not> (pumpState ?on \<and> tick_runtime ?on > 30000 \<and> tick_percent ?on \<le> lastWaterPercentage ?on)"
    "pumpState ?on" "tick_percent ?on = 25"
    "low_threshold_percent ?on = 20" "high_threshold_percent ?on = 30"
    by (simp_all add: eval_defs echo_late_def top_high_def clock_2s_def)
  have off: "tick_due ?off" "\<not> tick_overflow ?off" "\<not> (pumpState ?off \<and> tick_runtime ?off > 300000)"
    "\<not> (pumpState ?off \<and> tick_runtime ?off > 30000 \<and> tick_percent ?off \<le> lastWaterPercentage ?off)"
    "\<not> pumpState ?off" "tick_percent ?off = 25"
    "low_threshold_percent ?off = 20" "high_threshold_percent ?off = 30"
    by (simp_all add: eval_defs echo_4373_def top_high_def clock_2s_def)
  show ?thesis
    using hysteresis_decision [OF on(1-4)] hysteresis_decision [OF off(1-4)] on off
    by simp
qed

subsection \<open>Runtime cutoffs\<close>

text \<open>
  C3. The two runtime cutoffs act only on ticks that start with the pump on, and only
  towards off. With the pump on, a runtime above 300000 ms (5 minutes) leaves the pump
  off whatever the percentage, and so does a runtime above 30000 ms (30 seconds) when the
  percentage is not above the one stored by the previous tick. With the pump off, the
  result is the hysteresis decision gated by the overflow input alone. In every case a
  pump that is on after the tick was wanted on by hysteresis and overflow. The tick
  stores its percentage for the next comparison.
\<close>

theorem runtime_cutoffs:
  assumes "tick_due s"
  shows "(pumpState s \<and> tick_runtime s > 300000 \<longrightarrow> \<not> pumpState (loop s))
         \<and> (pumpState s \<and> tick_runtime s > 30000 \<and> tick_percent s \<le> lastWaterPercentage s
              \<longrightarrow> \<not> pumpState (loop s))
         \<and> (\<not> pumpState s \<longrightarrow>
              pumpState (loop s) =
                ((if tick_percent s < low_threshold_percent s then True
                  else if tick_percent s > high_threshold_percent s then False
                  else pumpState s)
                 \<and> \<not> tick_overflow s))
         \<and> (pumpState (loop s) \<longrightarrow>
              (if tick_percent s < low_threshold_percent s then True
               else if tick_percent s > high_threshold_percent s then False
               else pumpState s)
              \<and> \<not> tick_overflow s)
         \<and> lastWaterPercentage (loop s) = tick_percent s"
  using assms
  by (simp add: loop_lastWaterPercentage loop_pumpState PUMP_MAX_RUNTIME_MS_def
      MIN_PUMP_RUN_MS_def)

theorem runtime_cutoffs_witness:
  "tick_due (loop (board echo_none top_high clock_200s))
   \<and> pumpState (loop (board echo_none top_high clock_200s))
   \<and> tick_runtime (loop (board echo_none top_high clock_200s)) > 300000
   \<and> \<not> pumpState (loop (loop (board echo_none top_high clock_200s)))
   \<and> tick_due (loop (board echo_none top_high clock_40s))
   \<and> pumpState (loop (board echo_none top_high clock_40s))
   \<and> tick_runtime (loop (board echo_none top_high clock_40s)) = 120000
   \<and> tick_percent (loop (board echo_none top_high clock_40s))
       \<le> lastWaterPercentage (loop (board echo_none top_high clock_40s))
   \<and> \<not> pumpState (loop (loop (board echo_none top_high clock_40s)))
   \<and> tick_due (board echo_none top_high clock_200s)
   \<and> \<not> pumpState (board echo_none top_high clock_200s)
   \<and> pumpState (loop (board echo_none top_high clock_200s))"
proof -
  let ?long = "loop (board echo_none top_high clock_200s)"
  let ?dry = "loop (board echo_none top_high clock_40s)"
  let ?off = "board echo_none top_high clock_200s"
  have long: "tick_due ?long" "pumpState ?long" "tick_runtime ?long > 300000"
    by (simp_all add: eval_defs echo_none_def top_high_def clock_40s_def clock_200s_def)
  have dry: "tick_due ?dry" "pumpState ?dry" "tick_runtime ?dry = 120000"
    "tick_percent ?dry \<le> lastWaterPercentage ?dry"
    by (simp_all add: eval_defs echo_none_def top_high_def clock_40s_def clock_200s_def)
  have off: "tick_due ?off" "\<not> pumpState ?off" "\<not> tick_overflow ?off"
    "tick_percent ?off < low_threshold_percent ?off"
    by (simp_all add: eval_defs echo_none_def top_high_def clock_40s_def clock_200s_def)
  show ?thesis
    using runtime_cutoffs [OF long(1)] runtime_cutoffs [OF dry(1)] runtime_cutoffs [OF off(1)]
      long dry off
    by simp
qed

subsection \<open>The actuator\<close>

text \<open>
  C4. Applying a decision that equals the current pump state changes nothing at all: no
  field of the state, no timestamp, no write to the pump pin. A decision that differs
  writes the pin once; \<open>pumpStartTs\<close> takes the current time when the pump goes from
  off to on and keeps its value when the pump goes from on to off, so it changes on that
  transition only. A call of the main loop that starts with the pump on therefore never
  moves \<open>pumpStartTs\<close>, and one that leaves the pump state as it was writes nothing to the
  pin.
\<close>

theorem setPump_frame:
  "(on = pumpState s \<longrightarrow> setPump on s = s)
   \<and> (\<not> pumpState s \<longrightarrow>
        pumpState (setPump True s)
        \<and> pumpStartTs (setPump True s) = clock_ms s (clock_reads s)
        \<and> pump_pin (setPump True s) = HIGH # pump_pin s)
   \<and> (pumpState s \<longrightarrow>
        \<not> pumpState (setPump False s)
        \<and> pumpStartTs (setPump False s) = pumpStartTs s
        \<and> pump_pin (setPump False s) = LOW # pump_pin s)
   \<and> (pumpStartTs (setPump on s) \<noteq> pumpStartTs s \<longrightarrow> on \<and> \<not> pumpState s)
   \<and> (pump_pin (setPump on s) \<noteq> pump_pin s \<longrightarrow> on \<noteq> pumpState s)
   \<and> (pumpState s \<longrightarrow> pumpStartTs (loop s) = pumpStartTs s)
   \<and> (pumpState (loop s) = pumpState s \<longrightarrow> pump_pin (loop s) = pump_pin s)"
proof -
  have "pumpState s \<longrightarrow> pumpStartTs (loop s) = pumpStartTs s"
    by (cases "tick_due s") (simp_all add: loop_pumpStartTs loop_not_due)
  moreover have "pumpState (loop s) = pumpState s \<longrightarrow> pump_pin (loop s) = pump_pin s"
    by (cases "tick_due s") (simp_all add: loop_pump_pin loop_not_due)
  moreover have "on = pumpState s \<longrightarrow> setPump on s = s"
    by (simp add: setPump_def)
  moreover have "\<not> pumpState s \<longrightarrow>
        pumpState (setPump True s)
        \<and> pumpStartTs (setPump True s) = clock_ms s (clock_reads s)
        \<and> pump_pin (setPump True s) = HIGH # pump_pin s"
    by (simp add: setPump_eq)
  moreover have "pumpState s \<longrightarrow>
        \<not> pumpState (setPump False s)
        \<and> pumpStartTs (setPump False s) = pumpStartTs s
        \<and> pump_pin (setPump False s) = LOW # pump_pin s"
    by (simp add: setPump_eq)
  moreover have "pumpStartTs (setPump on s) \<noteq> pumpStartTs s \<longrightarrow> on \<and> \<not> pumpState s"
    by (simp add: setPump_eq)
  moreover have "pump_pin (setPump on s) \<noteq> pump_pin s \<longrightarrow> on \<noteq> pumpState s"
    by (simp add: setPump_eq)
  ultimately show ?thesis by blast
qed

theorem setPump_frame_witness:
  "\<not> pumpState (board echo_none top_high clock_2s)
   \<and> setPump False (board echo_none top_high clock_2s) = board echo_none top_high clock_2s
   \<and> pumpStartTs (setPump True (board echo_none top_high clock_2s)) = 2000
   \<and> pump_pin (setPump True (board echo_none top_high clock_2s)) = [HIGH]
   \<and> pumpState (loop (board echo_none top_high clock_2s))
   \<and> pumpStartTs (loop (board echo_none top_high clock_2s)) = 4000
   \<and> setPump True (loop (board echo_none top_high clock_2s)) = loop (board echo_none top_high clock_2s)
   \<and> pumpStartTs (setPump False (loop (board echo_none top_high clock_2s))) = 4000
   \<and> pumpState (loop (loop (board echo_none top_high clock_2s)))
   \<and> pumpStartTs (loop (loop (board echo_none top_high clock_2s))) = 4000
   \<and> pump_pin (loop (loop (board echo_none top_high clock_2s))) = [HIGH]"
proof -
  let ?off = "board echo_none top_high clock_2s"
  let ?on = "loop (board echo_none top_high clock_2s)"
  have off: "\<not> pumpState ?off" "clock_ms ?off (clock_reads ?off) = 2000" "pump_pin ?off = []"
    by (simp_all add: eval_defs echo_none_def top_high_def clock_2s_def)
  have on: "pumpState ?on" "pumpStartTs ?on = 4000" "pump_pin ?on = [HIGH]"
    "pumpState (loop ?on)"
    by (simp_all add: eval_defs echo_none_def top_high_def clock_2s_def)
  show ?thesis
    using setPump_frame [of False ?off] setPump_frame [of True ?on] off on
    by simp
qed

subsection \<open>A measurement that times out\<close>

text \<open>
  The reading of a tick whose echo timed out: the sentinel is not below the tank height,
  so the water height is 0 whatever the tank height, and the percentage is 0 unless the
  tank height is 0.
\<close>

lemma sentinel_ge: "fval H \<le> fval (fadd H (flt 10))"
  unfolding fadd_def by (rule flt_ge) (simp add: fval_flt_10)

lemma timeout_height:
  "echo_us s (echo_reads s) \<le> 0 \<Longrightarrow> tick_height s = flt 0"
proof -
  assume "echo_us s (echo_reads s) \<le> 0"
  then have d: "fst (getDistance s) = fadd (tank_height s) (flt 10)"
    by (simp add: fst_getDistance)
  have "fval (fsub (tank_height s) (fadd (tank_height s) (flt 10))) \<le> 0"
    unfolding fsub_def using sentinel_ge [of "tank_height s"] by (intro flt_nonpos) simp
  then show ?thesis
    by (simp add: tick_height_def d fmax_def fval_flt_0)
qed

lemma level_percent_zero:
  "fval H \<noteq> 0 \<Longrightarrow> level_percent ub (flt 0) H = 0"
  by (simp add: level_percent_def fdiv_def fmul_def ftimes_def float_to_int_def trunc_def
      constrain_def fval_flt_0)

theorem timeout_starts_pump:
  "echo_us (board echo_none top_high clock_2s) (echo_reads (board echo_none top_high clock_2s)) = 0
   \<and> tick_due (board echo_none top_high clock_2s)
   \<and> \<not> pumpState (board echo_none top_high clock_2s)
   \<and> \<not> tick_overflow (board echo_none top_high clock_2s)
   \<and> pumpState (loop (board echo_none top_high clock_2s))
   \<and> pump_pin (loop (board echo_none top_high clock_2s)) = [HIGH]"
  by (simp add: eval_defs echo_none_def top_high_def clock_2s_def)

text \<open>
  C5, as the code has it. When \<open>pulseIn\<close> times out, \<open>getDistance\<close> returns the tank
  height plus 10 and the tick goes on. The water height of the tick is then 0, and for a
  tank height other than 0 the reading is 0 percent, the reading of an empty tank: with
  the pump off before the tick and the overflow input not triggered, the tick switches
  the pump on exactly when the low threshold is above 0.
\<close>

theorem timeout_reads_empty:
  assumes "echo_us s (echo_reads s) \<le> 0"
  shows "getDistance s = (fadd (tank_height s) (flt 10), s\<lparr>echo_reads := Suc (echo_reads s)\<rparr>)
         \<and> tick_height s = flt 0
         \<and> (fval (tank_height s) \<noteq> 0 \<longrightarrow> tick_percent s = 0)
         \<and> (fval (tank_height s) \<noteq> 0 \<and> tick_due s \<and> \<not> pumpState s \<and> \<not> tick_overflow s \<longrightarrow>
              pumpState (loop s) = (0 < low_threshold_percent s))"
proof -
  have d: "getDistance s = (fadd (tank_height s) (flt 10), s\<lparr>echo_reads := Suc (echo_reads s)\<rparr>)"
    using assms by (simp add: getDistance_def pulseIn_def)
  have h: "tick_height s = flt 0"
    using assms by (rule timeout_height)
  have p: "tick_percent s = 0" if "fval (tank_height s) \<noteq> 0"
    using that by (simp add: tick_percent_def h level_percent_zero)
  have "pumpState (loop s) = (0 < low_threshold_percent s)"
    if "fval (tank_height s) \<noteq> 0" "tick_due s" "\<not> pumpState s" "\<not> tick_overflow s"
    using that p by (simp add: loop_pumpState)
  with d h p show ?thesis by blast
qed

theorem timeout_reads_empty_witness:
  "echo_us (board echo_none top_high clock_40s) (echo_reads (board echo_none top_high clock_40s)) \<le> 0
   \<and> fval (tank_height (board echo_none top_high clock_40s)) = 100
   \<and> fval (fst (getDistance (board echo_none top_high clock_40s))) = 110
   \<and> tick_percent (board echo_none top_high clock_40s) = 0
   \<and> low_threshold_percent (board echo_none top_high clock_40s) = 20
   \<and> pumpState (loop (board echo_none top_high clock_40s))"
proof -
  let ?b = "board echo_none top_high clock_40s"
  have b: "echo_us ?b (echo_reads ?b) \<le> 0" "fval (tank_height ?b) = 100" "tick_due ?b"
    "\<not> pumpState ?b" "\<not> tick_overflow ?b" "low_threshold_percent ?b = 20"
    "fval (fadd (tank_height ?b) (flt 10)) = 110"
    by (simp_all add: eval_defs echo_none_def top_high_def clock_40s_def)
  show ?thesis
    using timeout_reads_empty [OF b(1)] b by simp
qed

subsection \<open>The thresholds\<close>

lemma broadcastData_thresholds:
  "low_threshold_percent (broadcastData s) = low_threshold_percent s"
  "high_threshold_percent (broadcastData s) = high_threshold_percent s"
  "add_ub (broadcastData s) = add_ub s"
  by (simp_all add: broadcastData_eq)

lemma onWsEvent_thresholds:
  assumes "high_threshold_percent s
             = constrain (int_add (add_ub s) (low_threshold_percent s) 10) 0 100"
  shows "high_threshold_percent (onWsEvent ev s)
           = constrain (int_add (add_ub (onWsEvent ev s))
                          (low_threshold_percent (onWsEvent ev s)) 10) 0 100"
  using assms
  by (simp add: onWsEvent_def broadcastData_thresholds HYSTERESIS_PERCENT_def Let_def
      split: option.splits)

lemma run_thresholds:
  "high_threshold_percent s = constrain (int_add (add_ub s) (low_threshold_percent s) 10) 0 100 \<Longrightarrow>
   high_threshold_percent (run steps s)
     = constrain (int_add (add_ub (run steps s)) (low_threshold_percent (run steps s)) 10) 0 100"
proof (induction steps arbitrary: s)
  case Nil
  then show ?case by simp
next
  case (Cons x steps)
  show ?case
  proof (cases x)
    case Tick
    with Cons show ?thesis by (simp add: loop_frame)
  next
    case (Message ev)
    with Cons show ?thesis by (simp add: onWsEvent_thresholds)
  qed
qed

lemma constrain_bounds:
  "0 \<le> constrain x 0 100" "constrain x 0 100 \<le> 100"
  by (simp_all add: constrain_def)

lemma int_add_exact:
  "INT_MIN \<le> a + b \<Longrightarrow> a + b \<le> INT_MAX \<Longrightarrow> int_add ub a b = a + b"
  by (simp add: int_add_def)

lemma constrain_add_ge_iff:
  "(low \<le> constrain (int_add ub low 10) 0 100) = (low \<le> 100)"
proof (cases "low < 0")
  case True
  with constrain_bounds(1) [of "int_add ub low 10"] show ?thesis by linarith
next
  case False
  show ?thesis
  proof (cases "low \<le> 100")
    case True
    with False have "int_add ub low 10 = low + 10"
      by (simp add: int_add_exact INT_MIN_def INT_MAX_def)
    with True False show ?thesis by (simp add: constrain_def)
  next
    case False
    with constrain_bounds(2) [of "int_add ub low 10"] show ?thesis by linarith
  qed
qed

theorem threshold_above_100:
  "low_threshold_percent
     (onWsEvent (config_event (Some 150) None None) (board echo_none top_high clock_2s)) = 150
   \<and> high_threshold_percent
     (onWsEvent (config_event (Some 150) None None) (board echo_none top_high clock_2s)) = 100
   \<and> \<not> high_threshold_percent
          (onWsEvent (config_event (Some 150) None None) (board echo_none top_high clock_2s))
        \<ge> low_threshold_percent
          (onWsEvent (config_event (Some 150) None None) (board echo_none top_high clock_2s))"
  by (simp add: eval_defs echo_none_def top_high_def clock_2s_def)

text \<open>
  C6, as the code has it. After power-on and after any sequence of loop calls and
  WebSocket events, the high threshold is \<open>constrain(low + 10, 0, 100)\<close> for every low
  threshold from \<open>INT_MIN\<close> to \<open>INT_MAX - 10\<close>, the values for which the sum of line 77
  is defined. The high threshold is at least the low threshold exactly when the low
  threshold is at most 100.
\<close>

theorem thresholds_after_run:
  "(INT_MIN \<le> low_threshold_percent (run steps (power_on echo tops clock ub uadd))
      \<and> low_threshold_percent (run steps (power_on echo tops clock ub uadd)) \<le> INT_MAX - 10 \<longrightarrow>
      high_threshold_percent (run steps (power_on echo tops clock ub uadd))
        = constrain (low_threshold_percent (run steps (power_on echo tops clock ub uadd)) + 10) 0 100)
   \<and> ((low_threshold_percent (run steps (power_on echo tops clock ub uadd))
          \<le> high_threshold_percent (run steps (power_on echo tops clock ub uadd)))
        = (low_threshold_percent (run steps (power_on echo tops clock ub uadd)) \<le> 100))"
proof -
  let ?s = "run steps (power_on echo tops clock ub uadd)"
  have "high_threshold_percent (power_on echo tops clock ub uadd)
          = constrain (int_add (add_ub (power_on echo tops clock ub uadd))
                         (low_threshold_percent (power_on echo tops clock ub uadd)) 10) 0 100"
    by (simp add: power_on_def HYSTERESIS_PERCENT_def constrain_def int_add_def INT_MIN_def
        INT_MAX_def)
  then have inv: "high_threshold_percent ?s
                    = constrain (int_add (add_ub ?s) (low_threshold_percent ?s) 10) 0 100"
    by (rule run_thresholds)
  have "INT_MIN \<le> low_threshold_percent ?s \<and> low_threshold_percent ?s \<le> INT_MAX - 10 \<longrightarrow>
        int_add (add_ub ?s) (low_threshold_percent ?s) 10 = low_threshold_percent ?s + 10"
    by (simp add: int_add_exact INT_MIN_def INT_MAX_def)
  with inv constrain_add_ge_iff [of "low_threshold_percent ?s" "add_ub ?s"] show ?thesis by simp
qed

theorem thresholds_after_run_witness:
  "low_threshold_percent (run [Message (config_event (Some 25) None None), Tick]
        (power_on echo_none top_high clock_2s ub_max sum_max)) = 25
   \<and> INT_MIN \<le> (25::int) \<and> (25::int) \<le> INT_MAX - 10
   \<and> high_threshold_percent (run [Message (config_event (Some 25) None None), Tick]
        (power_on echo_none top_high clock_2s ub_max sum_max)) = 35
   \<and> fval (tank_height (run [Message (config_event (Some 25) None None), Tick]
        (power_on echo_none top_high clock_2s ub_max sum_max))) = 100"
proof -
  let ?s = "run [Message (config_event (Some 25) None None), Tick]
        (power_on echo_none top_high clock_2s ub_max sum_max)"
  have s: "low_threshold_percent ?s = 25" "fval (tank_height ?s) = 100"
    by (simp_all add: eval_defs echo_none_def top_high_def clock_2s_def)
  have r: "INT_MIN \<le> (25::int)" "(25::int) \<le> INT_MAX - 10"
    by (simp_all add: INT_MIN_def INT_MAX_def)
  show ?thesis
    using thresholds_after_run [of "[Message (config_event (Some 25) None None), Tick]"
        echo_none top_high clock_2s ub_max sum_max] s r
    by (simp add: constrain_def)
qed

subsection \<open>The level estimate\<close>








subsection \<open>A tank height that is not positive\<close>

lemma measured_distance_nonneg:
  "0 \<le> fval (flt (dbl (dbl (of_int n * dbl 0.0343) / 2)))" if "0 < n" for n :: int
proof -
  have "0 < dbl 0.0343"
    by (rule dbl_pos) simp
  then have "0 \<le> real_of_int n * dbl 0.0343"
    using that by simp
  then have "0 \<le> dbl (real_of_int n * dbl 0.0343) / 2"
    by (simp add: dbl_nonneg)
  then show ?thesis
    by (intro flt_nonneg dbl_nonneg)
qed

lemma nonpositive_height_reads_zero:
  "fval (tank_height s) \<le> 0 \<Longrightarrow> tick_height s = flt 0"
proof (cases "echo_us s (echo_reads s) > 0")
  case True
  assume H: "fval (tank_height s) \<le> 0"
  have "fval (fsub (tank_height s) (fst (getDistance s))) \<le> 0"
    unfolding fsub_def
    using True H measured_distance_nonneg [OF True]
    by (intro flt_nonpos) (simp add: fst_getDistance)
  then show ?thesis
    by (simp add: tick_height_def fmax_def fval_flt_0)
next
  case False
  then show ?thesis by (simp add: timeout_height)
qed

lemma report_volume_zero: "report_volume r (flt 0) = Some (flt 0)"
  by (simp add: report_volume_def finite32_def FLT_MAX_def ftimes_def fround_def cround_def
      dbl_def fval_flt rnd_zero rnd24_consts)

theorem zero_height_divides_by_zero:
  "fval (tank_height (onWsEvent (config_event None (Some (flt 0)) None)
                        (board echo_none top_high clock_2s))) = 0
   \<and> fdiv (tick_height (onWsEvent (config_event None (Some (flt 0)) None)
                          (board echo_none top_high clock_2s)))
           (tank_height (onWsEvent (config_event None (Some (flt 0)) None)
                           (board echo_none top_high clock_2s))) = None
   \<and> tick_due (onWsEvent (config_event None (Some (flt 0)) None) (board echo_none top_high clock_2s))
   \<and> waterPercentage
        (loop (onWsEvent (config_event None (Some (flt 0)) None) (board echo_none top_high clock_2s)))
       = 100"
  by (simp add: eval_defs echo_none_def top_high_def clock_2s_def)

text \<open>
  C8, as the code has it. With a tank height below 0 the water height is 0, the divisor
  is not zero and the reading is a defined 0 percent, height 0 and volume 0. With a tank
  height of 0 the code divides 0 by 0 with no guard, and the percentage is what the
  platform's conversion of that result to \<open>int\<close> gives, clamped to 0..100. The tick uses
  this percentage as it is; neither the state nor the snapshot has a field that could
  flag it.
\<close>

theorem nonpositive_height:
  "(fval (tank_height s) < 0 \<longrightarrow>
      fdiv (tick_height s) (tank_height s) = Some (flt 0)
      \<and> tick_percent s = 0
      \<and> water (hd (ws_out (broadcastData s))) = 0
      \<and> height (hd (ws_out (broadcastData s))) = 0
      \<and> volume (hd (ws_out (broadcastData s))) = Some (flt 0))
   \<and> (fval (tank_height s) = 0 \<longrightarrow>
      fdiv (tick_height s) (tank_height s) = None
      \<and> tick_percent s = constrain (cast_ub s None) 0 100)
   \<and> (tick_due s \<longrightarrow> waterPercentage (loop s) = tick_percent s)"
proof -
  have neg: "fdiv (tick_height s) (tank_height s) = Some (flt 0)
      \<and> tick_percent s = 0
      \<and> water (hd (ws_out (broadcastData s))) = 0
      \<and> height (hd (ws_out (broadcastData s))) = 0
      \<and> volume (hd (ws_out (broadcastData s))) = Some (flt 0)" if "fval (tank_height s) < 0"
  proof -
    have z: "tick_height s = flt 0"
      using that by (simp add: nonpositive_height_reads_zero)
    have p: "tick_percent s = 0"
      using that by (simp add: tick_percent_def z level_percent_zero)
    show ?thesis
      using that
      by (simp add: broadcastData_eq z p fdiv_def float_to_int_def trunc_def fval_flt_0
          report_volume_zero)
  qed
  have zero: "fdiv (tick_height s) (tank_height s) = None
      \<and> tick_percent s = constrain (cast_ub s None) 0 100" if "fval (tank_height s) = 0"
    using that by (simp add: tick_percent_def level_percent_def fdiv_def fmul_def float_to_int_def)
  from neg zero loop_waterPercentage show ?thesis by blast
qed

theorem nonpositive_height_witness:
  "fval (tank_height (onWsEvent (config_event None (Some (flt (- 5))) None)
                        (board echo_4373 top_high clock_2s))) < 0
   \<and> tick_percent (onWsEvent (config_event None (Some (flt (- 5))) None)
                      (board echo_4373 top_high clock_2s)) = 0
   \<and> fval (tank_height (onWsEvent (config_event None (Some (flt 0)) None)
                          (board echo_4373 top_high clock_2s))) = 0
   \<and> tick_percent (onWsEvent (config_event None (Some (flt 0)) None)
                      (board echo_4373 top_high clock_2s)) = 100
   \<and> tick_due (onWsEvent (config_event None (Some (flt (- 5))) None)
                  (board echo_4373 top_high clock_2s))
   \<and> waterPercentage (loop (onWsEvent (config_event None (Some (flt (- 5))) None)
                               (board echo_4373 top_high clock_2s))) = 0"
proof -
  let ?neg = "onWsEvent (config_event None (Some (flt (- 5))) None)
                (board echo_4373 top_high clock_2s)"
  let ?zero = "onWsEvent (config_event None (Some (flt 0)) None)
                 (board echo_4373 top_high clock_2s)"
  have n: "fval (tank_height ?neg) < 0" "tick_due ?neg"
    by (simp_all add: eval_defs echo_4373_def top_high_def clock_2s_def)
  have z: "fval (tank_height ?zero) = 0" "cast_ub ?zero None = 2147483647"
    by (simp_all add: eval_defs echo_4373_def top_high_def clock_2s_def)
  show ?thesis
    using nonpositive_height [of ?neg] nonpositive_height [of ?zero] n z
    by (simp add: constrain_def)
qed

subsection \<open>The samples of a tick\<close>

theorem snapshot_from_second_sample:
  "tick_due (board echo_once top_high clock_2s)
   \<and> echo_reads (board echo_once top_high clock_2s) = 0
   \<and> echo_reads (loop (board echo_once top_high clock_2s)) = 2
   \<and> waterPercentage (loop (board echo_once top_high clock_2s)) = 25
   \<and> water (hd (ws_out (loop (board echo_once top_high clock_2s)))) = 0
   \<and> height (hd (ws_out (loop (board echo_once top_high clock_2s)))) = 0"
  by (simp add: eval_defs echo_once_def top_high_def clock_2s_def)

text \<open>
  C9, as the code has it. A tick takes two sensor samples. The first gives the percentage
  that the pump decision uses and that the tick stores. \<open>broadcastData\<close> then measures
  again, and the snapshot of the tick is the one \<open>broadcastData\<close> builds from that second
  sample. The two percentages agree when the two echoes are equal.
\<close>

theorem two_samples_per_tick:
  assumes "tick_due s"
  shows "echo_reads (loop s) = echo_reads s + 2
         \<and> waterPercentage (loop s) = tick_percent s
         \<and> ws_out (loop s) =
             hd (ws_out (broadcastData
                   (s\<lparr>echo_reads := Suc (echo_reads s), top_reads := Suc (top_reads s),
                      pumpState := pumpState (loop s)\<rparr>))) # ws_out s
         \<and> water (hd (ws_out (loop s))) = tick_percent (s\<lparr>echo_reads := Suc (echo_reads s)\<rparr>)
         \<and> (echo_us s (Suc (echo_reads s)) = echo_us s (echo_reads s) \<longrightarrow>
              water (hd (ws_out (loop s))) = waterPercentage (loop s))"
proof -
  have w: "water (hd (ws_out (loop s))) = tick_percent (s\<lparr>echo_reads := Suc (echo_reads s)\<rparr>)"
    using assms
    by (simp add: loop_ws_out broadcastData_eq tick_percent_def tick_height_def fst_getDistance)
  have "tick_percent (s\<lparr>echo_reads := Suc (echo_reads s)\<rparr>) = tick_percent s"
    if "echo_us s (Suc (echo_reads s)) = echo_us s (echo_reads s)"
    using that by (simp add: tick_percent_def tick_height_def fst_getDistance)
  with w assms show ?thesis
    by (simp add: loop_reads loop_waterPercentage loop_ws_out)
qed

theorem two_samples_per_tick_witness:
  "tick_due (board echo_4373 top_high clock_2s)
   \<and> echo_reads (board echo_4373 top_high clock_2s) = 0
   \<and> echo_reads (loop (board echo_4373 top_high clock_2s)) = 2
   \<and> echo_us (board echo_4373 top_high clock_2s) (Suc 0) = echo_us (board echo_4373 top_high clock_2s) 0
   \<and> waterPercentage (loop (board echo_4373 top_high clock_2s)) = 25
   \<and> water (hd (ws_out (loop (board echo_4373 top_high clock_2s)))) = 25"
proof -
  let ?b = "board echo_4373 top_high clock_2s"
  have b: "tick_due ?b" "echo_reads ?b = 0" "echo_us ?b (Suc 0) = echo_us ?b 0"
    "tick_percent ?b = 25"
    by (simp_all add: eval_defs echo_4373_def top_high_def clock_2s_def)
  from two_samples_per_tick [OF b(1)]
  have r: "echo_reads (loop ?b) = echo_reads ?b + 2"
    "waterPercentage (loop ?b) = tick_percent ?b"
    "echo_us ?b (Suc (echo_reads ?b)) = echo_us ?b (echo_reads ?b) \<longrightarrow>
       water (hd (ws_out (loop ?b))) = waterPercentage (loop ?b)"
    by blast+
  from r b show ?thesis by simp
qed

subsection \<open>Configuration messages\<close>

text \<open>
  C10. A text frame whose payload parses stores each key it contains exactly as it
  arrives, with no check of its range and no rejection: the low threshold, the tank
  height and the tank radius take the received values whatever they are, and keys that
  are absent leave their parameter as it was. The stored values are what the next tick
  computes with: its percentage is taken against the new tank height, and with the pump
  off and the overflow input not triggered it switches the pump on exactly when that
  percentage is below the new threshold.
\<close>

theorem config_stored_verbatim:
  assumes "ev_type ev = WS_EVT_DATA" and "opcode ev = WS_TEXT" and "payload ev = Some doc"
  shows "low_threshold_percent (onWsEvent ev s)
           = (case key_threshold doc of None \<Rightarrow> low_threshold_percent s | Some v \<Rightarrow> v)
         \<and> tank_height (onWsEvent ev s)
           = (case key_height doc of None \<Rightarrow> tank_height s | Some v \<Rightarrow> v)
         \<and> tank_radius (onWsEvent ev s)
           = (case key_radius doc of None \<Rightarrow> tank_radius s | Some v \<Rightarrow> v)
         \<and> tick_percent (onWsEvent ev s)
           = level_percent (cast_ub s)
               (fmax (flt 0)
                  (fsub (case key_height doc of None \<Rightarrow> tank_height s | Some v \<Rightarrow> v)
                     (fst (getDistance (onWsEvent ev s)))))
               (case key_height doc of None \<Rightarrow> tank_height s | Some v \<Rightarrow> v)
         \<and> (tick_due (onWsEvent ev s) \<and> \<not> pumpState s \<and> \<not> tick_overflow (onWsEvent ev s) \<longrightarrow>
              pumpState (loop (onWsEvent ev s))
                = (tick_percent (onWsEvent ev s)
                     < (case key_threshold doc of None \<Rightarrow> low_threshold_percent s | Some v \<Rightarrow> v)))"
proof -
  let ?s = "onWsEvent ev s"
  have low: "low_threshold_percent ?s
           = (case key_threshold doc of None \<Rightarrow> low_threshold_percent s | Some v \<Rightarrow> v)"
    using assms by (simp add: onWsEvent_def broadcastData_eq Let_def split: option.splits)
  have hgt: "tank_height ?s = (case key_height doc of None \<Rightarrow> tank_height s | Some v \<Rightarrow> v)"
    using assms by (simp add: onWsEvent_def broadcastData_eq Let_def split: option.splits)
  have rad: "tank_radius ?s = (case key_radius doc of None \<Rightarrow> tank_radius s | Some v \<Rightarrow> v)"
    using assms by (simp add: onWsEvent_def broadcastData_eq Let_def split: option.splits)
  have ub: "cast_ub ?s = cast_ub s" and pump: "pumpState ?s = pumpState s"
    using assms by (simp_all add: onWsEvent_def broadcastData_eq Let_def split: option.splits)
  have pct: "tick_percent ?s
           = level_percent (cast_ub s)
               (fmax (flt 0)
                  (fsub (case key_height doc of None \<Rightarrow> tank_height s | Some v \<Rightarrow> v)
                     (fst (getDistance ?s))))
               (case key_height doc of None \<Rightarrow> tank_height s | Some v \<Rightarrow> v)"
    by (simp only: tick_percent_def tick_height_def hgt ub)
  have "pumpState (loop ?s) = (tick_percent ?s < low_threshold_percent ?s)"
    if "tick_due ?s" "\<not> pumpState s" "\<not> tick_overflow ?s"
    using that pump by (simp add: loop_pumpState)
  with low hgt rad pct show ?thesis by simp
qed

theorem config_stored_verbatim_witness:
  "ev_type (config_event (Some 150) (Some (flt (- 5))) (Some (flt 0))) = WS_EVT_DATA
   \<and> opcode (config_event (Some 150) (Some (flt (- 5))) (Some (flt 0))) = WS_TEXT
   \<and> low_threshold_percent
        (onWsEvent (config_event (Some 150) (Some (flt (- 5))) (Some (flt 0)))
           (board echo_4373 top_high clock_2s))
       = 150
   \<and> tank_height
        (onWsEvent (config_event (Some 150) (Some (flt (- 5))) (Some (flt 0)))
           (board echo_4373 top_high clock_2s))
       = flt (- 5)
   \<and> tank_radius
        (onWsEvent (config_event (Some 150) (Some (flt (- 5))) (Some (flt 0)))
           (board echo_4373 top_high clock_2s))
       = flt 0
   \<and> pumpState
        (loop (onWsEvent (config_event (Some 150) (Some (flt (- 5))) (Some (flt 0)))
                 (board echo_4373 top_high clock_2s)))"
proof -
  let ?ev = "config_event (Some 150) (Some (flt (- 5))) (Some (flt 0))"
  let ?b = "board echo_4373 top_high clock_2s"
  have ev: "ev_type ?ev = WS_EVT_DATA" "opcode ?ev = WS_TEXT"
    "payload ?ev = Some \<lparr>key_threshold = Some 150, key_height = Some (flt (- 5)),
                          key_radius = Some (flt 0)\<rparr>"
    by (simp_all add: config_event_def)
  have b: "tick_due (onWsEvent ?ev ?b)" "\<not> pumpState ?b" "\<not> tick_overflow (onWsEvent ?ev ?b)"
    "tick_percent (onWsEvent ?ev ?b) = 0"
    by (simp_all add: eval_defs echo_4373_def top_high_def clock_2s_def)
  show ?thesis
    using config_stored_verbatim [OF ev, of ?b] ev b by simp
qed

end
